theory Spec2Isabelle
  imports Main
begin

section \<open>The part of Python's \<open>re\<close> module that \<open>LogScrubber\<close> calls\<close>

text \<open>
  \<open>main.py\<close> transforms text with one library call only,
  \<open>re.sub(pattern, repl, string)\<close>, and catches one exception class only,
  \<open>re.error\<close>. The call has three outcomes that the source tells apart: it returns
  the new string, it raises \<open>re.error\<close> (caught in \<open>_scrub_line\<close>), or it
  raises something else (not caught in \<open>_scrub_line\<close>; \<open>scrub_log\<close> catches it
  with \<open>except Exception\<close>). CPython does raise other exceptions from
  \<open>re.sub\<close>: \<open>IndexError\<close> for a named group reference in the replacement
  whose name the pattern does not define, \<open>OverflowError\<close> for a repetition count of \<open>2^32 - 1\<close>
  or more.
\<close>

datatype exn = ReError | OtherError

type_synonym span = "nat \<times> nat"

type_synonym groups = "span option list"

text \<open>A parsed replacement template: literal pieces and group references.\<close>

datatype titem = TLit string | TGroup nat

text \<open>
  The regular-expression engine itself is not code of the repository; it is a parameter
  of the model. \<open>re_compile\<close> is the pattern compiler, \<open>re_candidates r s pos\<close>
  lists the matches of \<open>r\<close> in \<open>s\<close> that start at \<open>pos\<close>, in the order in which
  the backtracking matcher would find them (end position and the spans of groups
  \<open>1, 2, ...\<close>), and \<open>re_template\<close> is the parser of a replacement string that
  holds a backslash.
\<close>

record 'r re_engine =
  re_compile :: "string \<Rightarrow> exn + 'r"
  re_candidates :: "'r \<Rightarrow> string \<Rightarrow> nat \<Rightarrow> (nat \<times> groups) list"
  re_template :: "'r \<Rightarrow> string \<Rightarrow> exn + titem list"

definition backslash :: char where
  "backslash = CHR 0x5C"

definition slice :: "string \<Rightarrow> span \<Rightarrow> string" where
  "slice s sp = take (snd sp - fst sp) (drop (fst sp) s)"

text \<open>
  The text a group reference stands for: group \<open>0\<close> is the whole match, a group
  that took no part in the match gives the empty string.
\<close>

definition group_text :: "string \<Rightarrow> span \<Rightarrow> groups \<Rightarrow> nat \<Rightarrow> string" where
  "group_text s whole gs k =
     (if k = 0 then slice s whole
      else if k \<le> length gs then (case gs ! (k - 1) of None \<Rightarrow> [] | Some sp \<Rightarrow> slice s sp)
      else [])"

fun expand_template :: "titem list \<Rightarrow> string \<Rightarrow> span \<Rightarrow> groups \<Rightarrow> string" where
  "expand_template [] s whole gs = []"
| "expand_template (TLit l # ts) s whole gs = l @ expand_template ts s whole gs"
| "expand_template (TGroup k # ts) s whole gs =
     group_text s whole gs k @ expand_template ts s whole gs"

text \<open>
  A candidate at \<open>pos\<close> is accepted when it ends inside the string and, if the
  previous match was empty and ended here (\<open>must_advance\<close>), when it is not empty.
\<close>

definition accepted :: "string \<Rightarrow> nat \<Rightarrow> bool \<Rightarrow> nat \<times> groups \<Rightarrow> bool" where
  "accepted s pos must_advance c =
     (pos \<le> fst c \<and> fst c \<le> length s \<and> (if must_advance then fst c \<noteq> pos else True))"

definition match_at ::
  "'r re_engine \<Rightarrow> 'r \<Rightarrow> string \<Rightarrow> nat \<Rightarrow> bool \<Rightarrow> (nat \<times> groups) option" where
  "match_at eng r s pos must_advance =
     List.find (accepted s pos must_advance) (re_candidates eng r s pos)"

text \<open>
  The scan for the leftmost match at or after \<open>pos\<close>; \<open>n\<close> counts the start
  positions still to try after \<open>pos\<close>. Only the first position asks for a non-empty
  match.
\<close>

fun search_from ::
  "'r re_engine \<Rightarrow> 'r \<Rightarrow> string \<Rightarrow> nat \<Rightarrow> bool \<Rightarrow> nat \<Rightarrow> (nat \<times> nat \<times> groups) option" where
  "search_from eng r s pos must_advance 0 =
     (case match_at eng r s pos must_advance of
        Some (e, gs) \<Rightarrow> Some (pos, e, gs)
      | None \<Rightarrow> None)"
| "search_from eng r s pos must_advance (Suc n) =
     (case match_at eng r s pos must_advance of
        Some (e, gs) \<Rightarrow> Some (pos, e, gs)
      | None \<Rightarrow> search_from eng r s (Suc pos) False n)"

definition re_search ::
  "'r re_engine \<Rightarrow> 'r \<Rightarrow> string \<Rightarrow> nat \<Rightarrow> bool \<Rightarrow> (nat \<times> nat \<times> groups) option" where
  "re_search eng r s pos must_advance =
     (if length s < pos then None else search_from eng r s pos must_advance (length s - pos))"

lemma find_holds: "List.find P xs = Some x \<Longrightarrow> P x"
  by (induction xs) (auto split: if_splits)

lemma match_at_accepted:
  "match_at eng r s pos adv = Some (e, gs) \<Longrightarrow>
     pos \<le> e \<and> e \<le> length s \<and> (adv \<longrightarrow> e \<noteq> pos)"
  unfolding match_at_def by (drule find_holds) (auto simp: accepted_def split: if_splits)

lemma search_from_bounds:
  "search_from eng r s pos adv n = Some (b, e, gs) \<Longrightarrow>
     pos \<le> b \<and> b \<le> e \<and> e \<le> length s \<and> (adv \<and> b = pos \<longrightarrow> e \<noteq> pos)"
proof (induction n arbitrary: pos adv)
  case 0
  then show ?case
    by (auto split: option.splits dest: match_at_accepted)
next
  case (Suc n)
  show ?case
  proof (cases "match_at eng r s pos adv")
    case None
    with Suc.prems have "search_from eng r s (Suc pos) False n = Some (b, e, gs)"
      by simp
    from Suc.IH [OF this] show ?thesis by auto
  next
    case (Some c)
    with Suc.prems show ?thesis
      by (cases c) (auto dest: match_at_accepted)
  qed
qed

lemma re_search_bounds:
  "re_search eng r s pos adv = Some (b, e, gs) \<Longrightarrow>
     pos \<le> b \<and> b \<le> e \<and> e \<le> length s \<and> (adv \<and> b = pos \<longrightarrow> e \<noteq> pos)"
  unfolding re_search_def by (auto split: if_splits dest: search_from_bounds)

text \<open>
  The substitution loop of \<open>re.sub\<close> with \<open>count = 0\<close>: copy the text between the
  end of the previous match and the start of this one, append the replacement, go on
  from the end of this match; append the rest of the string when no match is left.
  After an empty match the next one must not be empty at the same place.
\<close>

function sub_loop ::
  "'r re_engine \<Rightarrow> 'r \<Rightarrow> titem list \<Rightarrow> string \<Rightarrow> nat \<Rightarrow> bool \<Rightarrow> string" where
  "sub_loop eng r t s i must_advance =
     (case re_search eng r s i must_advance of
        None \<Rightarrow> drop i s
      | Some (b, e, gs) \<Rightarrow>
          take (b - i) (drop i s) @ expand_template t s (b, e) gs
            @ sub_loop eng r t s e (e = b))"
  by pat_completeness auto
termination
proof (relation "measure (\<lambda>(eng, r, t, s, i, adv). 2 * (length s - i) + (if adv then 0 else 1))",
    goal_cases)
  case 1
  show ?case by simp
next
  case (2 eng r t s i must_advance x2 b y e gs)
  then have "re_search eng r s i must_advance = Some (b, e, gs)" by simp
  from re_search_bounds [OF this] show ?case
    by (cases must_advance) auto
qed

text \<open>
  The body of the loop as a function of the search result. With these equations as code
  equations, evaluation unfolds the loop only once the search has been evaluated.
\<close>

definition sub_cont ::
  "'r re_engine \<Rightarrow> 'r \<Rightarrow> titem list \<Rightarrow> string \<Rightarrow> nat \<Rightarrow> (nat \<times> nat \<times> groups) option
     \<Rightarrow> string" where
  "sub_cont eng r t s i found =
     (case found of
        None \<Rightarrow> drop i s
      | Some (b, e, gs) \<Rightarrow>
          take (b - i) (drop i s) @ expand_template t s (b, e) gs
            @ sub_loop eng r t s e (e = b))"

lemma sub_loop_code [code]:
  "sub_loop eng r t s i must_advance = sub_cont eng r t s i (re_search eng r s i must_advance)"
  by (simp add: sub_cont_def)

lemma sub_cont_code [code]:
  "sub_cont eng r t s i None = drop i s"
  "sub_cont eng r t s i (Some (b, e, gs)) =
     take (b - i) (drop i s) @ expand_template t s (b, e) gs @ sub_loop eng r t s e (e = b)"
  by (simp_all add: sub_cont_def)

declare sub_loop.simps [simp del]

text \<open>
  \<open>re.sub\<close>: compile the pattern, then the replacement. A replacement without a
  backslash is taken literally; one with a backslash goes through the template parser,
  before any matching, so that its errors are raised whether or not the pattern matches.
\<close>

definition re_sub :: "'r re_engine \<Rightarrow> string \<Rightarrow> string \<Rightarrow> string \<Rightarrow> exn + string" where
  "re_sub eng pat repl s =
     (case re_compile eng pat of
        Inl e \<Rightarrow> Inl e
      | Inr r \<Rightarrow>
          (if backslash \<notin> set repl then Inr (sub_loop eng r [TLit repl] s 0 False)
           else (case re_template eng r repl of
                   Inl e \<Rightarrow> Inl e
                 | Inr t \<Rightarrow> Inr (sub_loop eng r t s 0 False))))"

section \<open>\<open>LogScrubber\<close>\<close>

text \<open>
  The five kinds of value that \<open>Faker\<close> is asked for. The library is a random source;
  its \<open>k\<close>-th call of the run is modelled as the value \<open>fake c k\<close> of an arbitrary
  function, and the number of calls made so far is part of the state.
\<close>

datatype category = Name | Email | Address | PhoneNumber | CreditCardNumber

type_synonym faker = "category \<Rightarrow> nat \<Rightarrow> string"

text \<open>
  The fields that \<open>__init__\<close> stores. The encoding is left out: the model starts from
  the decoded lines that \<open>readlines\<close> returns.
\<close>

record log_scrubber =
  input_file :: string
  output_file :: string
  patterns :: "string list"
  replace_with :: "string option"
  inplace :: bool
  fake :: faker

datatype log_event =
    MissingArguments
  | InputNotFound string
  | InvalidRegex string
  | ErrorOccurred
  | ScrubbedInPlace string

record world =
  calls :: nat
  logged :: "log_event list"

definition log_event :: "log_event \<Rightarrow> world \<Rightarrow> world" where
  "log_event ev w = w\<lparr>logged := logged w @ [ev]\<rparr>"

text \<open>
  The second argument of \<open>re.sub\<close> in the \<open>if\<close>/\<open>elif\<close> chain of
  \<open>_scrub_line\<close>, with the number of generator calls after evaluating it. Python
  evaluates the arguments before it calls \<open>re.sub\<close>.
\<close>

definition replacement :: "log_scrubber \<Rightarrow> nat \<Rightarrow> string \<times> nat" where
  "replacement self k =
     (case replace_with self of
        None \<Rightarrow> ([], k)
      | Some rw \<Rightarrow>
          if rw = ''fake_name'' then (fake self Name k, Suc k)
          else if rw = ''fake_email'' then (fake self Email k, Suc k)
          else if rw = ''fake_address'' then (fake self Address k, Suc k)
          else if rw = ''fake_phone_number'' then (fake self PhoneNumber k, Suc k)
          else if rw = ''fake_credit_card_number'' then (fake self CreditCardNumber k, Suc k)
          else (rw, k))"

text \<open>
  The loop of \<open>_scrub_line\<close> over \<open>self.patterns\<close>. \<open>line\<close> is the argument of
  \<open>_scrub_line\<close>, \<open>sanitized_line\<close> the loop variable. \<open>re.error\<close> is logged
  and ends the call with \<open>line\<close>; any other exception leaves the function.
\<close>

fun scrub_rules ::
  "'r re_engine \<Rightarrow> log_scrubber \<Rightarrow> string \<Rightarrow> string list \<Rightarrow> string \<Rightarrow> world
     \<Rightarrow> (exn + string) \<times> world" where
  "scrub_rules eng self line [] sanitized_line w = (Inr sanitized_line, w)"
| "scrub_rules eng self line (pattern # rest) sanitized_line w =
     (case replacement self (calls w) of
        (repl, k) \<Rightarrow>
          (case re_sub eng pattern repl sanitized_line of
             Inr s' \<Rightarrow> scrub_rules eng self line rest s' (w\<lparr>calls := k\<rparr>)
           | Inl ReError \<Rightarrow> (Inr line, log_event (InvalidRegex pattern) (w\<lparr>calls := k\<rparr>))
           | Inl OtherError \<Rightarrow> (Inl OtherError, w\<lparr>calls := k\<rparr>)))"

definition scrub_line ::
  "'r re_engine \<Rightarrow> log_scrubber \<Rightarrow> string \<Rightarrow> world \<Rightarrow> (exn + string) \<times> world" where
  "scrub_line eng self line w = scrub_rules eng self line (patterns self) line w"

text \<open>
  The files, each as the list of lines that \<open>readlines\<close> returns or the list of strings
  that \<open>write\<close> received.
\<close>

type_synonym files = "string \<rightharpoonup> string list"

text \<open>
  The \<open>for line in lines\<close> loop of \<open>scrub_log\<close>: the strings written, and the
  exception that ended the loop, if one did.
\<close>

fun scrub_lines ::
  "'r re_engine \<Rightarrow> log_scrubber \<Rightarrow> string list \<Rightarrow> world
     \<Rightarrow> string list \<times> exn option \<times> world" where
  "scrub_lines eng self [] w = ([], None, w)"
| "scrub_lines eng self (line # lines) w =
     (case scrub_line eng self line w of
        (Inl e, w') \<Rightarrow> ([], Some e, w')
      | (Inr sanitized_line, w') \<Rightarrow>
          (case scrub_lines eng self lines w' of
             (written, r, w'') \<Rightarrow> (sanitized_line # written, r, w'')))"

text \<open>
  \<open>scrub_log\<close>. The output file exists from the moment it is opened for writing, so
  it holds the lines written before an exception. \<open>os.replace\<close> moves the output
  file onto the input file.
\<close>

definition scrub_log ::
  "'r re_engine \<Rightarrow> log_scrubber \<Rightarrow> files \<Rightarrow> world \<Rightarrow> files \<times> world" where
  "scrub_log eng self fs w =
     (if input_file self = [] \<or> output_file self = [] \<or> patterns self = []
      then (fs, log_event MissingArguments w)
      else (case fs (input_file self) of
              None \<Rightarrow> (fs, log_event (InputNotFound (input_file self)) w)
            | Some lines \<Rightarrow>
                (case scrub_lines eng self lines w of
                   (written, Some e, w') \<Rightarrow>
                     (fs(output_file self \<mapsto> written), log_event ErrorOccurred w')
                 | (written, None, w') \<Rightarrow>
                     (if inplace self
                      then ((fs(output_file self := None))(input_file self \<mapsto> written),
                            log_event (ScrubbedInPlace (input_file self)) w')
                      else (fs(output_file self \<mapsto> written), w')))))"

section \<open>A fragment of Python's regular expressions\<close>

text \<open>
  The concrete statements below need a concrete engine. A string is a list of code points
  below 256. The engine covers a fragment of the pattern syntax: ordinary characters,
  \<open>.\<close>, \<open>^\<close>, \<open>$\<close>, character sets with ranges and negation, the class escapes
  for digits, word characters and white space and their complements, the escapes of
  control characters and of punctuation, capturing groups and groups that do not capture,
  alternation, and the greedy repetitions \<open>*\<close>, \<open>+\<close>, \<open>?\<close> and braces. It was
  compared with CPython 3.11 on the patterns of this theory and on others of the fragment.
  For every other construct it answers \<open>re.error\<close>, which need not be Python's answer:
  lazy and possessive repetition, every other form of group (look-around, named and atomic
  groups, flags, conditions, comments), back-references, the escapes for word boundaries
  and for the start and end of the string, and numeric escapes in a pattern. It has none
  of the limits of CPython's parser either (the depth of nesting, the number of groups).
  No statement below uses such a pattern. The general theorems do not depend on this
  engine: they hold for every engine.
\<close>

datatype regex =
    Eps
  | Bol
  | Eol
  | Sym "(char \<times> char) list" bool
  | Seq regex regex
  | Alt regex regex
  | Star regex
  | Group nat regex

definition in_ranges :: "char \<Rightarrow> (char \<times> char) list \<Rightarrow> bool" where
  "in_ranges c rs =
     list_ex (\<lambda>(lo, hi). (of_char lo :: int) \<le> of_char c \<and> (of_char c :: int) \<le> of_char hi) rs"

type_synonym mstate = "string \<times> nat \<times> groups"

text \<open>
  The matches of a pattern from a state (the rest of the string, the position, the
  groups), in the order in which backtracking tries them. An iteration of a repetition
  that consumes nothing is the last one.
\<close>

fun cands :: "regex \<Rightarrow> mstate \<Rightarrow> mstate list" where
  "cands Eps st = [st]"
| "cands Bol (rest, i, gs) = (if i = 0 then [(rest, i, gs)] else [])"
| "cands Eol (rest, i, gs) = (if rest = [] \<or> rest = [CHR 0x0A] then [(rest, i, gs)] else [])"
| "cands (Sym rs neg) (rest, i, gs) =
     (case rest of
        [] \<Rightarrow> []
      | c # cs \<Rightarrow> if in_ranges c rs \<noteq> neg then [(cs, Suc i, gs)] else [])"
| "cands (Seq a b) st = concat (map (cands b) (cands a st))"
| "cands (Alt a b) st = cands a st @ cands b st"
| "cands (Group n a) (rest, i, gs) =
     map (\<lambda>(rest', j, gs'). (rest', j, gs'[n - 1 := Some (i, j)])) (cands a (rest, i, gs))"
| "cands (Star a) (rest, i, gs) =
     concat (map (\<lambda>(rest', j, gs').
                    if length rest' < length rest then cands (Star a) (rest', j, gs')
                    else [(rest', j, gs')])
                 (cands a (rest, i, gs)))
     @ [(rest, i, gs)]"


datatype token = TChr char | TEsc char | TBad

fun tokens :: "string \<Rightarrow> token list" where
  "tokens [] = []"
| "tokens (c # rest) =
     (if c = backslash
      then (case rest of [] \<Rightarrow> [TBad] | e # rest' \<Rightarrow> TEsc e # tokens rest')
      else TChr c # tokens rest)"

definition is_digit :: "char \<Rightarrow> bool" where
  "is_digit c = in_ranges c [(CHR ''0'', CHR ''9'')]"

definition is_letter :: "char \<Rightarrow> bool" where
  "is_letter c = in_ranges c [(CHR ''a'', CHR ''z''), (CHR ''A'', CHR ''Z'')]"

definition digit_ranges :: "(char \<times> char) list" where
  "digit_ranges = [(CHR ''0'', CHR ''9'')]"

definition word_ranges :: "(char \<times> char) list" where
  "word_ranges =
     [(CHR ''a'', CHR ''z''), (CHR ''A'', CHR ''Z''), (CHR ''0'', CHR ''9''), (CHR ''_'', CHR ''_''),
      (CHR 0xAA, CHR 0xAA), (CHR 0xB2, CHR 0xB3), (CHR 0xB5, CHR 0xB5), (CHR 0xB9, CHR 0xBA),
      (CHR 0xBC, CHR 0xBE), (CHR 0xC0, CHR 0xD6), (CHR 0xD8, CHR 0xF6), (CHR 0xF8, CHR 0xFF)]"

definition space_ranges :: "(char \<times> char) list" where
  "space_ranges =
     [(CHR 0x09, CHR 0x0D), (CHR 0x1C, CHR 0x1F), (CHR '' '', CHR '' ''), (CHR 0x85, CHR 0x85),
      (CHR 0xA0, CHR 0xA0)]"

text \<open>The characters outside the given ranges, each as a range of its own.\<close>

definition negated :: "(char \<times> char) list \<Rightarrow> (char \<times> char) list" where
  "negated rs =
     map (\<lambda>c. (c, c)) (filter (\<lambda>c. \<not> in_ranges c rs) (map char_of [0 ..< (256 :: nat)]))"

definition control_escape :: "char \<Rightarrow> char option" where
  "control_escape e =
     (if e = CHR ''n'' then Some (CHR 0x0A)
      else if e = CHR ''t'' then Some (CHR 0x09)
      else if e = CHR ''r'' then Some (CHR 0x0D)
      else if e = CHR ''f'' then Some (CHR 0x0C)
      else if e = CHR ''v'' then Some (CHR 0x0B)
      else if e = CHR ''a'' then Some (CHR 0x07)
      else None)"

text \<open>One item of a character set: its ranges, and whether it is a single character.\<close>

definition set_item :: "token \<Rightarrow> ((char \<times> char) list \<times> bool) option" where
  "set_item t =
     (case t of
        TBad \<Rightarrow> None
      | TChr c \<Rightarrow> Some ([(c, c)], True)
      | TEsc e \<Rightarrow>
          if e = CHR ''d'' then Some (digit_ranges, False)
          else if e = CHR ''D'' then Some (negated digit_ranges, False)
          else if e = CHR ''w'' then Some (word_ranges, False)
          else if e = CHR ''W'' then Some (negated word_ranges, False)
          else if e = CHR ''s'' then Some (space_ranges, False)
          else if e = CHR ''S'' then Some (negated space_ranges, False)
          else if e = CHR ''b'' then Some ([(CHR 0x08, CHR 0x08)], True)
          else (case control_escape e of
                  Some c \<Rightarrow> Some ([(c, c)], True)
                | None \<Rightarrow> if is_letter e \<or> is_digit e then None else Some ([(e, e)], True)))"

definition item_ranges :: "token \<Rightarrow> (char \<times> char) list" where
  "item_ranges t = (case set_item t of None \<Rightarrow> [] | Some x \<Rightarrow> fst x)"

definition item_char :: "token \<Rightarrow> char option" where
  "item_char t =
     (case set_item t of
        None \<Rightarrow> None
      | Some x \<Rightarrow> (case fst x of [] \<Rightarrow> None | r # rs \<Rightarrow> if snd x then Some (fst r) else None))"

definition range_of :: "token \<Rightarrow> token \<Rightarrow> (char \<times> char) option" where
  "range_of t u =
     (case item_char t of
        None \<Rightarrow> None
      | Some lo \<Rightarrow>
          (case item_char u of
             None \<Rightarrow> None
           | Some hi \<Rightarrow> if (of_char lo :: int) \<le> of_char hi then Some (lo, hi) else None))"

definition add_ranges ::
  "(char \<times> char) list \<Rightarrow> nat \<Rightarrow> ((char \<times> char) list \<times> nat) option
     \<Rightarrow> ((char \<times> char) list \<times> nat) option" where
  "add_ranges rs k r = map_option (\<lambda>x. (rs @ fst x, k + snd x)) r"

text \<open>
  The items of a character set up to its closing bracket, with the number of tokens read.
  A closing bracket that comes first is an ordinary character; a hyphen before the
  closing bracket is one too, and a hyphen between two characters makes a range.
\<close>

fun set_ahead :: "bool \<Rightarrow> token list \<Rightarrow> ((char \<times> char) list \<times> nat) option" where
  "set_ahead first [] = None"
| "set_ahead first (t # ts) =
     (if t = TChr (CHR '']'') \<and> \<not> first then Some ([], 1)
      else if set_item t = None then None
      else if take 2 ts = [TChr (CHR ''-''), TChr (CHR '']'')]
      then Some (item_ranges t @ [(CHR ''-'', CHR ''-'')], 3)
      else if take 1 ts = [TChr (CHR ''-'')] \<and> 2 \<le> length ts
      then (if range_of t (ts ! 1) = None then None
            else add_ranges [the (range_of t (ts ! 1))] 3 (set_ahead False (drop 2 ts)))
      else add_ranges (item_ranges t) 1 (set_ahead False ts))"

text \<open>A character set after its opening bracket: ranges, negation, tokens read.\<close>

definition set_spec :: "token list \<Rightarrow> ((char \<times> char) list \<times> bool \<times> nat) option" where
  "set_spec ts =
     (if take 1 ts = [TChr (CHR ''^'')]
      then map_option (\<lambda>x. (fst x, True, Suc (snd x))) (set_ahead True (tl ts))
      else map_option (\<lambda>x. (fst x, False, snd x)) (set_ahead True ts))"

definition digits_of :: "token list \<Rightarrow> string" where
  "digits_of ts = map (\<lambda>t. case t of TChr c \<Rightarrow> c | _ \<Rightarrow> CHR ''0'')
                    (takeWhile (\<lambda>t. case t of TChr c \<Rightarrow> is_digit c | _ \<Rightarrow> False) ts)"

text \<open>Python's \<open>int\<close> of a string of decimal digits.\<close>

definition int_of_digits :: "string \<Rightarrow> int" where
  "int_of_digits ds = foldl (\<lambda>n c. 10 * n + (of_char c - 48)) 0 ds"

text \<open>
  The bounds of a repetition after its opening brace: the lower bound (zero when left
  out), the upper bound (none when left out), and the number of tokens up to and
  including the closing brace. A brace that does not open such a form is an ordinary
  character.
\<close>

definition bounds_ahead :: "token list \<Rightarrow> (int \<times> int option \<times> nat) option" where
  "bounds_ahead ts =
     (if take 1 ts = [TChr (CHR ''}'')] then None
      else
        (let lo = digits_of ts; ts1 = drop (length lo) ts in
         if take 1 ts1 = [TChr (CHR '','')]
         then (let hi = digits_of (tl ts1); ts2 = drop (length hi) (tl ts1) in
               if take 1 ts2 = [TChr (CHR ''}'')]
               then Some (int_of_digits lo, if hi = [] then None else Some (int_of_digits hi),
                          length lo + length hi + 2)
               else None)
         else if take 1 ts1 = [TChr (CHR ''}'')]
         then Some (int_of_digits lo, Some (int_of_digits lo), length lo + 1)
         else None))"

definition MAXREPEAT :: int where
  "MAXREPEAT = 4294967295"

definition too_large :: "int \<times> int option \<times> nat \<Rightarrow> bool" where
  "too_large b =
     (MAXREPEAT \<le> fst b \<or> (case fst (snd b) of None \<Rightarrow> False | Some h \<Rightarrow> MAXREPEAT \<le> h))"

definition decreasing :: "int \<times> int option \<times> nat \<Rightarrow> bool" where
  "decreasing b = (case fst (snd b) of None \<Rightarrow> False | Some h \<Rightarrow> h < fst b)"

fun power_seq :: "regex \<Rightarrow> nat \<Rightarrow> regex \<Rightarrow> regex" where
  "power_seq a 0 tail = tail"
| "power_seq a (Suc n) tail = Seq a (power_seq a n tail)"

fun upto_seq :: "regex \<Rightarrow> nat \<Rightarrow> regex" where
  "upto_seq a 0 = Eps"
| "upto_seq a (Suc n) = Alt (Seq a (upto_seq a n)) Eps"

definition repeat :: "int \<times> int option \<times> nat \<Rightarrow> regex \<Rightarrow> regex" where
  "repeat b a =
     power_seq a (nat (fst b))
       (case fst (snd b) of None \<Rightarrow> Star a | Some h \<Rightarrow> upto_seq a (nat (h - fst b)))"

fun mk_seq :: "regex list \<Rightarrow> regex" where
  "mk_seq [] = Eps"
| "mk_seq [a] = a"
| "mk_seq (a # as) = Seq a (mk_seq as)"

fun mk_alt :: "regex list \<Rightarrow> regex" where
  "mk_alt [] = Eps"
| "mk_alt [a] = a"
| "mk_alt (a # as) = Alt a (mk_alt as)"

text \<open>
  An open group while it is parsed: its number (none for a non-capturing group), the
  alternatives that are complete, and the items of the current alternative, last first.
\<close>

type_synonym frame = "nat option \<times> regex list \<times> regex list"

definition frame_regex :: "frame \<Rightarrow> regex" where
  "frame_regex f = mk_alt (fst (snd f) @ [mk_seq (rev (snd (snd f)))])"

definition push_item :: "regex \<Rightarrow> frame \<Rightarrow> frame" where
  "push_item a f = (fst f, fst (snd f), a # snd (snd f))"

definition next_alt :: "frame \<Rightarrow> frame" where
  "next_alt f = (fst f, fst (snd f) @ [mk_seq (rev (snd (snd f)))], [])"

definition close_group :: "frame \<Rightarrow> regex" where
  "close_group f = (case fst f of None \<Rightarrow> frame_regex f | Some k \<Rightarrow> Group k (frame_regex f))"

text \<open>A repetition applies to the last item, when there is one that may take it.\<close>

definition repeatable :: "frame \<Rightarrow> bool \<Rightarrow> bool" where
  "repeatable f q = (q \<and> snd (snd f) \<noteq> [])"

definition repeat_last :: "(regex \<Rightarrow> regex) \<Rightarrow> frame \<Rightarrow> frame" where
  "repeat_last h f =
     (case snd (snd f) of
        [] \<Rightarrow> f
      | a # items \<Rightarrow> (fst f, fst (snd f), h a # items))"

definition escape_item :: "char \<Rightarrow> regex option" where
  "escape_item e =
     (if e = CHR ''d'' then Some (Sym digit_ranges False)
      else if e = CHR ''D'' then Some (Sym digit_ranges True)
      else if e = CHR ''w'' then Some (Sym word_ranges False)
      else if e = CHR ''W'' then Some (Sym word_ranges True)
      else if e = CHR ''s'' then Some (Sym space_ranges False)
      else if e = CHR ''S'' then Some (Sym space_ranges True)
      else (case control_escape e of
              Some c \<Rightarrow> Some (Sym [(c, c)] False)
            | None \<Rightarrow> if is_letter e \<or> is_digit e then None else Some (Sym [(e, e)] False)))"

definition star :: "regex \<Rightarrow> regex" where
  "star a = Star a"

definition plus :: "regex \<Rightarrow> regex" where
  "plus a = Seq a (Star a)"

definition opt :: "regex \<Rightarrow> regex" where
  "opt a = Alt a Eps"

text \<open>
  The parser: the enclosing open groups, the current one, the number of capturing groups
  so far, and whether the last item may take a repetition.
\<close>

fun parse :: "frame list \<Rightarrow> frame \<Rightarrow> nat \<Rightarrow> bool \<Rightarrow> token list \<Rightarrow> exn + regex \<times> nat" where
  "parse stack cur n q [] =
     (if stack = [] then Inr (frame_regex cur, n) else Inl ReError)"
| "parse stack cur n q (TBad # ts) = Inl ReError"
| "parse stack cur n q (TEsc e # ts) =
     (if escape_item e = None then Inl ReError
      else parse stack (push_item (the (escape_item e)) cur) n True ts)"
| "parse stack cur n q (TChr c # ts) =
     (if c = CHR ''('' then
        (if take 2 ts = [TChr (CHR ''?''), TChr (CHR '':'')]
         then parse (cur # stack) (None, [], []) n False (drop 2 ts)
         else if take 1 ts = [TChr (CHR ''?'')] then Inl ReError
         else parse (cur # stack) (Some (Suc n), [], []) (Suc n) False ts)
      else if c = CHR '')'' then
        (if stack = [] then Inl ReError
         else parse (tl stack) (push_item (close_group cur) (hd stack)) n True ts)
      else if c = CHR ''|'' then parse stack (next_alt cur) n False ts
      else if c = CHR ''*'' then
        (if repeatable cur q then parse stack (repeat_last star cur) n False ts else Inl ReError)
      else if c = CHR ''+'' then
        (if repeatable cur q then parse stack (repeat_last plus cur) n False ts else Inl ReError)
      else if c = CHR ''?'' then
        (if repeatable cur q then parse stack (repeat_last opt cur) n False ts else Inl ReError)
      else if c = CHR ''{'' then
        (if bounds_ahead ts = None then parse stack (push_item (Sym [(c, c)] False) cur) n True ts
         else if take 1 (drop (snd (snd (the (bounds_ahead ts)))) ts) = [TBad] then Inl ReError
         else if too_large (the (bounds_ahead ts)) then Inl OtherError
         else if decreasing (the (bounds_ahead ts)) then Inl ReError
         else if repeatable cur q
         then parse stack (repeat_last (repeat (the (bounds_ahead ts))) cur) n False
                (drop (snd (snd (the (bounds_ahead ts)))) ts)
         else Inl ReError)
      else if c = CHR ''['' then
        (if set_spec ts = None then Inl ReError
         else parse stack
                (push_item (Sym (fst (the (set_spec ts))) (fst (snd (the (set_spec ts))))) cur)
                n True (drop (snd (snd (the (set_spec ts)))) ts))
      else if c = CHR ''.'' then
        parse stack (push_item (Sym [(CHR 0x0A, CHR 0x0A)] True) cur) n True ts
      else if c = CHR ''^'' then parse stack (push_item Bol cur) n False ts
      else if c = CHR ''$'' then parse stack (push_item Eol cur) n False ts
      else parse stack (push_item (Sym [(c, c)] False) cur) n True ts)"

definition compile :: "string \<Rightarrow> exn + regex \<times> nat" where
  "compile pat = parse [] (None, [], []) 0 False (tokens pat)"


text \<open>
  The parser of a replacement string, for a pattern with \<open>n\<close> groups, none of them
  named: escapes of control characters, octal escapes, numbered group references, and
  group references in angle brackets. A reference to a group number above \<open>n\<close> is
  \<open>re.error\<close>; a reference to a group name is \<open>IndexError\<close>, since no name is
  defined.
\<close>

definition is_octal :: "char \<Rightarrow> bool" where
  "is_octal c = in_ranges c [(CHR ''0'', CHR ''7'')]"

definition token_char :: "token \<Rightarrow> char option" where
  "token_char t = (case t of TChr c \<Rightarrow> Some c | _ \<Rightarrow> None)"

text \<open>
  \<open>str.isidentifier\<close> on code points below 256: the characters that may start an
  identifier, and those that may follow.
\<close>

definition identifier_start :: "(char \<times> char) list" where
  "identifier_start =
     [(CHR ''A'', CHR ''Z''), (CHR ''_'', CHR ''_''), (CHR ''a'', CHR ''z''), (CHR 0xAA, CHR 0xAA),
      (CHR 0xB5, CHR 0xB5), (CHR 0xBA, CHR 0xBA), (CHR 0xC0, CHR 0xD6), (CHR 0xD8, CHR 0xF6),
      (CHR 0xF8, CHR 0xFF)]"

definition identifier_part :: "(char \<times> char) list" where
  "identifier_part = identifier_start @ [(CHR ''0'', CHR ''9''), (CHR 0xB7, CHR 0xB7)]"

definition is_identifier :: "string \<Rightarrow> bool" where
  "is_identifier name =
     (name \<noteq> [] \<and> in_ranges (hd name) identifier_start
      \<and> list_all (\<lambda>c. in_ranges c identifier_part) name)"

text \<open>
  Python's \<open>int\<close> of a string, on code points below 256: white space around an
  optional sign and decimal digits, which single underscores may separate.
\<close>

definition py_strip :: "string \<Rightarrow> string" where
  "py_strip name =
     rev (dropWhile (\<lambda>c. in_ranges c space_ranges)
            (rev (dropWhile (\<lambda>c. in_ranges c space_ranges) name)))"

fun well_separated :: "string \<Rightarrow> bool" where
  "well_separated [] = False"
| "well_separated [c] = is_digit c"
| "well_separated (c # d # cs) =
     (if is_digit c then (is_digit d \<or> d = CHR ''_'') \<and> well_separated (d # cs)
      else c = CHR ''_'' \<and> is_digit d \<and> well_separated (d # cs))"

definition unsigned :: "string \<Rightarrow> string" where
  "unsigned name = (if take 1 name = ''-'' \<or> take 1 name = ''+'' then tl name else name)"

definition py_int :: "string \<Rightarrow> int option" where
  "py_int name =
     (if unsigned (py_strip name) \<noteq> [] \<and> is_digit (hd (unsigned (py_strip name)))
         \<and> well_separated (unsigned (py_strip name))
      then Some ((if take 1 (py_strip name) = ''-'' then - 1 else 1)
                 * int_of_digits (filter is_digit (unsigned (py_strip name))))
      else None)"

definition MAXGROUPS :: int where
  "MAXGROUPS = 1073741823"

definition group_ref :: "nat \<Rightarrow> int \<Rightarrow> exn + titem" where
  "group_ref n k = (if int n < k then Inl ReError else Inr (TGroup (nat k)))"

definition named_ref :: "nat \<Rightarrow> token list \<Rightarrow> exn + titem" where
  "named_ref n name_tokens =
     (if name_tokens = [] \<or> \<not> list_all (\<lambda>t. token_char t \<noteq> None) name_tokens then Inl ReError
      else (let name = map (\<lambda>t. case t of TChr c \<Rightarrow> c | _ \<Rightarrow> CHR ''?'') name_tokens in
            if is_identifier name then Inl OtherError
            else if py_int name = None then Inl ReError
            else if the (py_int name) < 0 \<or> MAXGROUPS \<le> the (py_int name) then Inl ReError
            else group_ref n (the (py_int name))))"

definition octal_value :: "string \<Rightarrow> int" where
  "octal_value ds = foldl (\<lambda>n c. 8 * n + (of_char c - 48)) 0 ds"

definition cons_item :: "exn + titem \<Rightarrow> exn + titem list \<Rightarrow> exn + titem list" where
  "cons_item i r =
     (case i of
        Inl e \<Rightarrow> Inl e
      | Inr x \<Rightarrow> (case r of Inl e \<Rightarrow> Inl e | Inr xs \<Rightarrow> Inr (x # xs)))"

fun template_items :: "nat \<Rightarrow> token list \<Rightarrow> exn + titem list" where
  "template_items n [] = Inr []"
| "template_items n (TBad # ts) = Inl ReError"
| "template_items n (TChr c # ts) = cons_item (Inr (TLit [c])) (template_items n ts)"
| "template_items n (TEsc e # ts) =
     (if e = CHR ''g'' then
        (if ts \<noteq> [] \<and> hd ts = TChr (CHR ''<'') \<and> TChr (CHR ''>'') \<in> set (tl ts)
         then (let name = takeWhile (\<lambda>t. t \<noteq> TChr (CHR ''>'')) (tl ts) in
               if take 1 (drop (length name + 2) ts) = [TBad] then Inl ReError
               else cons_item (named_ref n name) (template_items n (drop (length name + 2) ts)))
         else Inl ReError)
      else if e = CHR ''0'' then
        (let ds = takeWhile is_octal (take 2 (map (\<lambda>t. case t of TChr c \<Rightarrow> c | _ \<Rightarrow> CHR ''x'') ts)) in
         cons_item (Inr (TLit [char_of (octal_value ds mod 256)]))
           (template_items n (drop (length ds) ts)))
      else if is_digit e then
        (case ts of
           TChr d # ts' \<Rightarrow>
             if is_digit d then
               (case ts' of
                  TChr d' # ts'' \<Rightarrow>
                    if is_octal e \<and> is_octal d \<and> is_octal d' then
                      (if 255 < octal_value [e, d, d'] then Inl ReError
                       else cons_item (Inr (TLit [char_of (octal_value [e, d, d'])]))
                              (template_items n ts''))
                    else cons_item (group_ref n (int_of_digits [e, d])) (template_items n ts')
                | _ \<Rightarrow> cons_item (group_ref n (int_of_digits [e, d])) (template_items n ts'))
             else cons_item (group_ref n (int_of_digits [e])) (template_items n ts)
         | _ \<Rightarrow> cons_item (group_ref n (int_of_digits [e])) (template_items n ts))
      else if e = backslash then cons_item (Inr (TLit [backslash])) (template_items n ts)
      else if e = CHR ''b'' then cons_item (Inr (TLit [CHR 0x08])) (template_items n ts)
      else (case control_escape e of
              Some c \<Rightarrow> cons_item (Inr (TLit [c])) (template_items n ts)
            | None \<Rightarrow>
                if is_letter e then Inl ReError
                else cons_item (Inr (TLit [backslash, e])) (template_items n ts)))"

text \<open>The engine of the examples.\<close>

definition pyre :: "(regex \<times> nat) re_engine" where
  "pyre =
     \<lparr>re_compile = compile,
      re_candidates =
        (\<lambda>r s pos. map (\<lambda>(rest, e, gs). (e, gs))
                     (cands (fst r) (drop pos s, pos, replicate (snd r) None))),
      re_template = (\<lambda>r repl. template_items (snd r) (tokens repl))\<rparr>"

section \<open>Properties of \<open>LogScrubber\<close>\<close>

subsection \<open>Concrete configurations\<close>

text \<open>
  A generator for the examples whose values differ from call to call: the \<open>k\<close>-th
  value is \<open>k + 1\<close> letters \<open>x\<close>.
\<close>

definition counting_faker :: faker where
  "counting_faker c k = replicate (Suc k) (CHR ''x'')"

definition scrubber :: "string list \<Rightarrow> string option \<Rightarrow> log_scrubber" where
  "scrubber pats rw =
     \<lparr>input_file = ''in.log'', output_file = ''out.log'', patterns = pats,
      replace_with = rw, inplace = False, fake = counting_faker\<rparr>"

definition start :: world where
  "start = \<lparr>calls = 0, logged = []\<rparr>"

definition one_file :: "string list \<Rightarrow> files" where
  "one_file lines = [''in.log'' \<mapsto> lines]"






lemma scrubber_fields [simp]:
  "input_file (scrubber ps rw) = ''in.log''"
  "output_file (scrubber ps rw) = ''out.log''"
  "patterns (scrubber ps rw) = ps"
  "replace_with (scrubber ps rw) = rw"
  "inplace (scrubber ps rw) = False"
  "fake (scrubber ps rw) = counting_faker"
  by (simp_all add: scrubber_def)

lemma pyre_compile: "re_compile pyre = compile"
  by (simp add: pyre_def)

subsection \<open>The replacement policy\<close>

text \<open>
  The policy is synthetic when \<open>replace_with\<close> is one of the five names of the
  \<open>elif\<close> chain; otherwise the replacement is the empty string (deletion) or
  \<open>replace_with\<close> itself.
\<close>

definition fake_keywords :: "string list" where
  "fake_keywords = [''fake_name'', ''fake_email'', ''fake_address'', ''fake_phone_number'',
               ''fake_credit_card_number'']"

definition synthetic :: "log_scrubber \<Rightarrow> bool" where
  "synthetic self = (case replace_with self of None \<Rightarrow> False | Some rw \<Rightarrow> rw \<in> set fake_keywords)"

definition fixed_text :: "log_scrubber \<Rightarrow> string" where
  "fixed_text self = (case replace_with self of None \<Rightarrow> [] | Some rw \<Rightarrow> rw)"

lemma replacement_fixed:
  "\<not> synthetic self \<Longrightarrow> replacement self k = (fixed_text self, k)"
  by (auto simp: synthetic_def replacement_def fixed_text_def fake_keywords_def split: option.splits)


lemma synthetic_fake [simp]: "synthetic (self\<lparr>fake := f\<rparr>) = synthetic self"
  by (simp add: synthetic_def)

lemma fixed_text_fake [simp]: "fixed_text (self\<lparr>fake := f\<rparr>) = fixed_text self"
  by (simp add: fixed_text_def)

lemma scrub_rules_fixed:
  "\<not> synthetic self \<Longrightarrow>
     fst (scrub_rules eng (self\<lparr>fake := f\<rparr>) line ps s w)
       = fst (scrub_rules eng (self\<lparr>fake := g\<rparr>) line ps s w') \<and>
     calls (snd (scrub_rules eng (self\<lparr>fake := f\<rparr>) line ps s w)) = calls w"
proof (induction ps arbitrary: s w w')
  case Nil
  show ?case by simp
next
  case (Cons p ps)
  from Cons.prems have r: "replacement (self\<lparr>fake := h\<rparr>) k = (fixed_text self, k)" for h k
    using replacement_fixed [of "self\<lparr>fake := h\<rparr>" k] by simp
  show ?case
  proof (cases "re_sub eng p (fixed_text self) s")
    case (Inl e)
    then show ?thesis by (cases e) (simp_all add: r log_event_def)
  next
    case (Inr s')
    with Cons.IH [OF Cons.prems, of s' "w\<lparr>calls := calls w\<rparr>" "w'\<lparr>calls := calls w'\<rparr>"]
    show ?thesis by (simp add: r)
  qed
qed

text \<open>
  Under a synthetic policy the replacement is the value of one call of the generator, for
  the category that the name stands for.
\<close>

definition category_of :: "string \<Rightarrow> category" where
  "category_of rw =
     (if rw = ''fake_name'' then Name
      else if rw = ''fake_email'' then Email
      else if rw = ''fake_address'' then Address
      else if rw = ''fake_phone_number'' then PhoneNumber
      else CreditCardNumber)"

definition generated :: "log_scrubber \<Rightarrow> nat \<Rightarrow> string" where
  "generated self k = fake self (category_of (the (replace_with self))) k"

lemma replacement_generated:
  "synthetic self \<Longrightarrow> replacement self k = (generated self k, Suc k)"
  by (auto simp: synthetic_def replacement_def fake_keywords_def category_of_def generated_def
      split: option.splits)

subsection \<open>The matches that \<open>re.sub\<close> replaces\<close>




function spans :: "'r re_engine \<Rightarrow> 'r \<Rightarrow> string \<Rightarrow> nat \<Rightarrow> bool \<Rightarrow> span list" where
  "spans eng r s i must_advance =
     (case re_search eng r s i must_advance of
        None \<Rightarrow> []
      | Some (b, e, gs) \<Rightarrow> (b, e) # spans eng r s e (e = b))"
  by pat_completeness auto
termination
proof (relation "measure (\<lambda>(eng, r, s, i, adv). 2 * (length s - i) + (if adv then 0 else 1))",
    goal_cases)
  case 1
  show ?case by simp
next
  case (2 eng r s i must_advance x2 b y e gs)
  then have "re_search eng r s i must_advance = Some (b, e, gs)" by simp
  from re_search_bounds [OF this] show ?case
    by (cases must_advance) auto
qed

text \<open>The body of the scan as a function of the search result, for evaluation.\<close>

definition spans_cont ::
  "'r re_engine \<Rightarrow> 'r \<Rightarrow> string \<Rightarrow> (nat \<times> nat \<times> groups) option \<Rightarrow> span list" where
  "spans_cont eng r s found =
     (case found of
        None \<Rightarrow> []
      | Some (b, e, gs) \<Rightarrow> (b, e) # spans eng r s e (e = b))"

lemma spans_code [code]:
  "spans eng r s i must_advance = spans_cont eng r s (re_search eng r s i must_advance)"
  by (simp add: spans_cont_def)

lemma spans_cont_code [code]:
  "spans_cont eng r s None = []"
  "spans_cont eng r s (Some (b, e, gs)) = (b, e) # spans eng r s e (e = b)"
  by (simp_all add: spans_cont_def)

declare spans.simps [simp del]

text \<open>
  The string \<open>s\<close> from position \<open>i\<close> on, with each of the given spans replaced by
  \<open>x\<close> and the text between them kept.
\<close>

fun fill :: "string \<Rightarrow> string \<Rightarrow> nat \<Rightarrow> span list \<Rightarrow> string" where
  "fill x s i [] = drop i s"
| "fill x s i ((b, e) # ms) = take (b - i) (drop i s) @ x @ fill x s e ms"

text \<open>
  Spans that follow one another from \<open>i\<close> on without overlap, inside a string of
  length \<open>n\<close>.
\<close>

fun disjoint_from :: "nat \<Rightarrow> nat \<Rightarrow> span list \<Rightarrow> bool" where
  "disjoint_from i n [] = True"
| "disjoint_from i n ((b, e) # ms) = (i \<le> b \<and> b \<le> e \<and> e \<le> n \<and> disjoint_from e n ms)"

lemma sub_loop_literal:
  "sub_loop eng r [TLit x] s i adv = fill x s i (spans eng r s i adv)"
proof (induction eng r "[TLit x]" s i adv rule: sub_loop.induct)
  case (1 eng r s i adv)
  show ?case
  proof (cases "re_search eng r s i adv")
    case None
    then show ?thesis by (simp add: sub_loop.simps [of eng r _ s i adv] spans.simps [of eng r s i adv])
  next
    case (Some m)
    obtain b e gs where m: "m = (b, e, gs)" by (cases m)
    from 1 [OF Some [unfolded m] refl refl] Some m show ?thesis
      by (simp add: sub_loop.simps [of eng r _ s i adv] spans.simps [of eng r s i adv])
  qed
qed

lemma spans_disjoint: "disjoint_from i (length s) (spans eng r s i adv)"
proof (induction eng r s i adv rule: spans.induct)
  case (1 eng r s i adv)
  show ?case
  proof (cases "re_search eng r s i adv")
    case None
    then show ?thesis by (simp add: spans.simps [of eng r s i adv])
  next
    case (Some m)
    obtain b e gs where m: "m = (b, e, gs)" by (cases m)
    from 1 [OF Some [unfolded m] refl refl] re_search_bounds [OF Some [unfolded m]] Some m
    show ?thesis by (simp add: spans.simps [of eng r s i adv])
  qed
qed

lemma sub_loop_no_match:
  "re_search eng r s i adv = None \<Longrightarrow> sub_loop eng r t s i adv = drop i s"
  by (simp add: sub_loop.simps [of eng r t s i adv])


text \<open>
  The exception that \<open>re.sub\<close> raises for a pattern and a replacement, if it raises
  one: it does not depend on the string.
\<close>

definition sub_error :: "'r re_engine \<Rightarrow> string \<Rightarrow> string \<Rightarrow> exn option" where
  "sub_error eng pat repl =
     (case re_compile eng pat of
        Inl e \<Rightarrow> Some e
      | Inr r \<Rightarrow>
          (if backslash \<notin> set repl then None
           else (case re_template eng r repl of Inl e \<Rightarrow> Some e | Inr t \<Rightarrow> None)))"

lemma re_sub_error: "re_sub eng pat repl s = Inl e \<longleftrightarrow> sub_error eng pat repl = Some e"
  by (auto simp: re_sub_def sub_error_def split: sum.splits)

lemma re_sub_literal:
  "re_compile eng pat = Inr r \<Longrightarrow> backslash \<notin> set x \<Longrightarrow>
     re_sub eng pat x s = Inr (fill x s 0 (spans eng r s 0 False))"
  by (simp add: re_sub_def sub_loop_literal)

lemma scrub_rules_literal:
  "re_compile eng p = Inr r \<Longrightarrow> replacement self (calls w) = (x, k) \<Longrightarrow> backslash \<notin> set x \<Longrightarrow>
     scrub_rules eng self line (p # rest) s w
       = scrub_rules eng self line rest (fill x s 0 (spans eng r s 0 False)) (w\<lparr>calls := k\<rparr>)"
  by (simp add: re_sub_literal)

subsection \<open>Runs of the loop over the rules\<close>

text \<open>
  Several statements below suppose that no call of \<open>re.sub\<close> raises an exception
  other than \<open>re.error\<close>: for every rule \<open>q\<close> and every replacement that the
  policy can produce, \<open>sub_error eng q repl\<close> is not \<open>OtherError\<close>.
\<close>

lemma replacement_patterns [simp]:
  "replacement (self\<lparr>patterns := ps\<rparr>) k = replacement self k"
  by (simp add: replacement_def split: option.splits)

lemma re_sub_cases:
  obtains (ok) s' where "re_sub eng p repl s = Inr s'" "sub_error eng p repl = None"
  | (failed) e where "re_sub eng p repl s = Inl e" "sub_error eng p repl = Some e"
proof (cases "re_sub eng p repl s")
  case (Inl e)
  then show ?thesis using failed re_sub_error [of eng p repl s e] by simp
next
  case (Inr s')
  have "sub_error eng p repl = None"
  proof (cases "sub_error eng p repl")
    case (Some e)
    with re_sub_error [of eng p repl s e] Inr show ?thesis by simp
  qed simp
  with Inr show ?thesis using ok by simp
qed

lemma re_sub_no_match:
  "re_compile eng q = Inr r \<Longrightarrow> re_search eng r s 0 False = None \<Longrightarrow>
     re_sub eng q repl s = Inr s' \<Longrightarrow> s' = s"
  by (auto simp: re_sub_def sub_loop_no_match split: if_splits sum.splits)

lemma re_sub_invalid: "re_compile eng p = Inl e \<Longrightarrow> re_sub eng p repl s = Inl e"
  by (simp add: re_sub_def)

lemma scrub_rules_returns:
  "\<forall>q\<in>set ps. \<forall>k. sub_error eng q (fst (replacement self k)) \<noteq> Some OtherError \<Longrightarrow>
     \<exists>out. fst (scrub_rules eng self line ps s w) = Inr out"
proof (induction ps arbitrary: s w)
  case Nil
  show ?case by simp
next
  case (Cons q ps)
  obtain repl k where r: "replacement self (calls w) = (repl, k)" by (cases "replacement self (calls w)")
  from Cons.prems have no: "sub_error eng q repl \<noteq> Some OtherError"
    using r by (metis fst_conv list.set_intros(1))
  from Cons.prems have rest: "\<forall>q\<in>set ps. \<forall>k. sub_error eng q (fst (replacement self k)) \<noteq> Some OtherError"
    by simp
  show ?case
  proof (cases rule: re_sub_cases [of eng q repl s])
    case (ok s')
    with Cons.IH [OF rest, of s' "w\<lparr>calls := k\<rparr>"] r show ?thesis by simp
  next
    case (failed e)
    with no have "e = ReError" by (cases e) simp_all
    with failed r show ?thesis by simp
  qed
qed

lemma scrub_rules_invalid:
  "p \<in> set ps \<Longrightarrow> re_compile eng p = Inl ReError \<Longrightarrow>
   \<forall>q\<in>set ps. \<forall>k. sub_error eng q (fst (replacement self k)) \<noteq> Some OtherError \<Longrightarrow>
     fst (scrub_rules eng self line ps s w) = Inr line \<and>
     (\<exists>q\<in>set ps. logged (snd (scrub_rules eng self line ps s w)) = logged w @ [InvalidRegex q])"
proof (induction ps arbitrary: s w)
  case Nil
  then show ?case by simp
next
  case (Cons q ps)
  obtain repl k where r: "replacement self (calls w) = (repl, k)" by (cases "replacement self (calls w)")
  from Cons.prems(3) have no: "sub_error eng q repl \<noteq> Some OtherError"
    using r by (metis fst_conv list.set_intros(1))
  from Cons.prems(3) have rest: "\<forall>q\<in>set ps. \<forall>k. sub_error eng q (fst (replacement self k)) \<noteq> Some OtherError"
    by simp
  show ?case
  proof (cases rule: re_sub_cases [of eng q repl s])
    case (ok s')
    with re_sub_invalid [OF Cons.prems(2), of repl s] have "q \<noteq> p" by auto
    with Cons.prems(1) have "p \<in> set ps" by simp
    from Cons.IH [OF this Cons.prems(2) rest, of s' "w\<lparr>calls := k\<rparr>"] ok r show ?thesis by simp
  next
    case (failed e)
    with no have "e = ReError" by (cases e) simp_all
    with failed r show ?thesis by (simp add: log_event_def)
  qed
qed

lemma scrub_rules_no_match:
  "\<forall>q\<in>set ps. \<forall>k. sub_error eng q (fst (replacement self k)) \<noteq> Some OtherError \<Longrightarrow>
   \<forall>q\<in>set ps. \<forall>r. re_compile eng q = Inr r \<longrightarrow> re_search eng r line 0 False = None \<Longrightarrow>
     fst (scrub_rules eng self line ps line w) = Inr line"
proof (induction ps arbitrary: w)
  case Nil
  show ?case by simp
next
  case (Cons q ps)
  obtain repl k where r: "replacement self (calls w) = (repl, k)" by (cases "replacement self (calls w)")
  from Cons.prems(1) have no: "sub_error eng q repl \<noteq> Some OtherError"
    using r by (metis fst_conv list.set_intros(1))
  from Cons.prems(1) have rest: "\<forall>q\<in>set ps. \<forall>k. sub_error eng q (fst (replacement self k)) \<noteq> Some OtherError"
    by simp
  from Cons.prems(2) have rest': "\<forall>q\<in>set ps. \<forall>r. re_compile eng q = Inr r \<longrightarrow> re_search eng r line 0 False = None"
    by simp
  show ?case
  proof (cases rule: re_sub_cases [of eng q repl line])
    case (ok s')
    then obtain c where c: "re_compile eng q = Inr c"
      by (cases "re_compile eng q") (auto simp: re_sub_def)
    with Cons.prems(2) have "re_search eng c line 0 False = None" by simp
    from re_sub_no_match [OF c this ok(1)] have "s' = line" .
    with Cons.IH [OF rest rest', of "w\<lparr>calls := k\<rparr>"] ok r show ?thesis by simp
  next
    case (failed e)
    with no have "e = ReError" by (cases e) simp_all
    with failed r show ?thesis by simp
  qed
qed

lemma scrub_lines_all:
  "\<forall>q\<in>set (patterns self). \<forall>k. sub_error eng q (fst (replacement self k)) \<noteq> Some OtherError \<Longrightarrow>
     \<exists>written w'. scrub_lines eng self lines w = (written, None, w') \<and>
        length written = length lines \<and>
        (\<forall>i<length lines. \<exists>wi. fst (scrub_line eng self (lines ! i) wi) = Inr (written ! i))"
proof (induction lines arbitrary: w)
  case Nil
  show ?case by simp
next
  case (Cons line lines)
  from scrub_rules_returns [OF Cons.prems, of line line w]
  obtain out w1 where l: "scrub_line eng self line w = (Inr out, w1)"
    unfolding scrub_line_def by (cases "scrub_rules eng self line (patterns self) line w") auto
  from Cons.IH [OF Cons.prems, of w1] obtain written w' where
    r: "scrub_lines eng self lines w1 = (written, None, w')" "length written = length lines"
       "\<forall>i<length lines. \<exists>wi. fst (scrub_line eng self (lines ! i) wi) = Inr (written ! i)"
    by blast
  have "\<exists>wi. fst (scrub_line eng self ((line # lines) ! i) wi) = Inr ((out # written) ! i)"
    if "i < length (line # lines)" for i
  proof (cases i)
    case 0
    with l show ?thesis by (auto intro: exI [of _ w])
  next
    case (Suc j)
    with that r(3) show ?thesis by simp
  qed
  with l r(1,2) show ?case by simp
qed




subsection \<open>Evaluations of the examples\<close>



lemma open_group_invalid: "compile ''('' = Inl ReError"
  by code_simp


lemma open_group_error: "sub_error pyre ''('' ''-'' = Some ReError"
  by code_simp

lemma dash_for_b:
  "fst (scrub_line pyre (scrubber [''b''] (Some ''-'')) ''abc'' start) = Inr ''a-c''"
  by code_simp

lemma scrubber_patterns [simp]: "(scrubber ps rw)\<lparr>patterns := qs\<rparr> = scrubber qs rw"
  by (simp add: scrubber_def)

lemma z_compile: "compile ''z'' = Inr (Sym [(CHR ''z'', CHR ''z'')] False, 0)"
  by code_simp

lemma z_not_in_abc: "re_search pyre (Sym [(CHR ''z'', CHR ''z'')] False, 0) ''abc'' 0 False = None"
  by code_simp

lemma replacement_name:
  "replacement (scrubber ps (Some ''fake_name'')) k = (replicate (Suc k) (CHR ''x''), Suc k)"
  by (simp add: replacement_def counting_faker_def)

lemma z_no_error: "sub_error pyre ''z'' (replicate n (CHR ''x'')) = None"
  by (simp add: sub_error_def pyre_compile z_compile backslash_def)




lemma a_compile: "compile ''a'' = Inr (Sym [(CHR ''a'', CHR ''a'')] False, 0)"
  by code_simp

lemma generated_email: "generated (scrubber ps (Some ''fake_email'')) k = replicate (Suc k) (CHR ''x'')"
  by (simp add: generated_def category_of_def counting_faker_def)

lemma synthetic_email: "synthetic (scrubber ps (Some ''fake_email''))"
  by (simp add: synthetic_def fake_keywords_def)



lemma two_rules_email:
  "scrub_rules pyre (scrubber [''a'', ''b''] (Some ''fake_email'')) ''a b a'' [''b'']
     ''x b x'' (start\<lparr>calls := Suc (calls start)\<rparr>) = (Inr ''x xx x'', start\<lparr>calls := 2\<rparr>)"
  by code_simp

lemma two_sites_b: "spans pyre (Sym [(CHR ''a'', CHR ''a'')] False, 0) ''a b a'' 0 False = [(0, 1), (4, 5)]"
  by code_simp









subsection \<open>The claims\<close>

text \<open>
  C7. With an empty list of rules \<open>_scrub_line\<close> returns its argument, logs nothing
  and calls no generator. \<open>scrub_log\<close> does not reach \<open>_scrub_line\<close> then: its
  first guard logs that the arguments are missing and returns, and no file is written.
\<close>

theorem empty_rules:
  "patterns self = [] \<Longrightarrow>
     scrub_line eng self line w = (Inr line, w) \<and>
     scrub_log eng self fs w = (fs, log_event MissingArguments w)"
  by (simp add: scrub_line_def scrub_log_def)

theorem empty_rules_witness:
  "patterns (scrubber [] None) = [] \<and>
   scrub_line pyre (scrubber [] None) ''abc'' start = (Inr ''abc'', start) \<and>
   scrub_log pyre (scrubber [] None) (one_file [''abc'']) start
     = (one_file [''abc''], log_event MissingArguments start)"
  using empty_rules [of "scrubber [] None" pyre "''abc''" start "one_file [''abc'']"]
  by (simp add: scrubber_def)

text \<open>
  C7, as stated, at the level of the file: for the input file with the one line
  \<open>abc\<close> and no rule, there is no output file after \<open>scrub_log\<close>, so no output
  line equal to the input line.
\<close>

theorem empty_rules_no_output:
  "fst (scrub_log pyre (scrubber [] None) (one_file [''abc'']) start) ''out.log'' = None"
  by (simp add: scrub_log_def scrubber_def one_file_def)

text \<open>
  C10. When \<open>replace_with\<close> is \<open>None\<close> or a string other than the five names,
  the result of \<open>_scrub_line\<close> is the same for every generator and every state of the
  run, and the generator is not called.
\<close>

theorem scrub_deterministic:
  "\<not> synthetic self \<Longrightarrow>
     fst (scrub_line eng (self\<lparr>fake := f\<rparr>) line w)
       = fst (scrub_line eng (self\<lparr>fake := g\<rparr>) line w') \<and>
     calls (snd (scrub_line eng (self\<lparr>fake := f\<rparr>) line w)) = calls w"
  using scrub_rules_fixed [of self eng f line "patterns self" line w g w']
  by (simp add: scrub_line_def)

theorem scrub_deterministic_witness:
  "\<not> synthetic (scrubber [''b''] (Some ''-'')) \<and>
   fst (scrub_line pyre (scrubber [''b''] (Some ''-'')\<lparr>fake := \<lambda>c k. ''y''\<rparr>) ''abc''
          (start\<lparr>calls := 5\<rparr>)) = Inr ''a-c'' \<and>
   calls (snd (scrub_line pyre (scrubber [''b''] (Some ''-'')) ''abc'' start)) = 0"
  using scrub_deterministic [of "scrubber [''b''] (Some ''-'')" pyre counting_faker "''abc''"
      start "\<lambda>c k. ''y''" "start\<lparr>calls := 5\<rparr>"] dash_for_b
  by (simp add: synthetic_def scrubber_def fake_keywords_def start_def)

text \<open>
  C1. The property: whenever the pattern of some rule fails to compile, \<open>_scrub_line\<close>
  returns the line it was given and logs the failure, and raises nothing. The code
  catches \<open>re.error\<close> only. The pattern \<open>a{4294967295}\<close> fails to compile with
  \<open>OverflowError\<close>: \<open>_scrub_line\<close> raises, and \<open>scrub_log\<close>, which catches the
  exception, ends the run at the first line, with an empty output file and one logged
  error.
\<close>

theorem invalid_pattern_raises:
  "re_compile pyre ''a{4294967295}'' = Inl OtherError \<and>
   fst (scrub_line pyre (scrubber [''a{4294967295}''] None) ''a'' start) = Inl OtherError \<and>
   fst (scrub_log pyre (scrubber [''a{4294967295}''] None) (one_file [''a'', ''b'']) start)
     ''out.log'' = Some [] \<and>
   logged (snd (scrub_log pyre (scrubber [''a{4294967295}''] None) (one_file [''a'', ''b''])
                  start)) = [ErrorOccurred]"
  by code_simp

text \<open>
  C8. The property: a line with no match of any valid rule comes back unchanged, whatever
  the policy. The valid pattern \<open>z\<close> has no match in \<open>abc\<close>; with the replacement
  text \<open>\g<x>\<close>, which names a group that the pattern does not define, \<open>re.sub\<close>
  raises \<open>IndexError\<close> before it looks for a match, and \<open>_scrub_line\<close> raises
  instead of returning the line. With the replacement text \<open>\1\<close>, whose error is
  \<open>re.error\<close>, the line does come back.
\<close>

theorem no_match_raises:
  "\<not> isl (compile ''z'') \<and>
   re_search pyre (projr (compile ''z'')) ''abc'' 0 False = None \<and>
   fst (scrub_line pyre (scrubber [''z''] (Some (backslash # ''g<x>''))) ''abc'' start)
     = Inl OtherError \<and>
   fst (scrub_line pyre (scrubber [''z''] (Some (backslash # ''1''))) ''abc'' start)
     = Inr ''abc''"
  by code_simp






text \<open>
  C2. Under a synthetic policy, for a rule with a valid pattern whose generated value
  holds no backslash: one value is requested for the rule, every match of the rule in the
  current text is replaced by that same value, the matches being disjoint and in order,
  and the rules that follow are applied to the result with the next call of the
  generator.
\<close>

theorem synthetic_per_rule:
  "synthetic self \<Longrightarrow> re_compile eng p = Inr r \<Longrightarrow> backslash \<notin> set (generated self (calls w)) \<Longrightarrow>
     scrub_rules eng self line (p # rest) s w
       = scrub_rules eng self line rest (fill (generated self (calls w)) s 0 (spans eng r s 0 False))
           (w\<lparr>calls := Suc (calls w)\<rparr>) \<and>
     disjoint_from 0 (length s) (spans eng r s 0 False)"
proof -
  assume syn: "synthetic self" and c: "re_compile eng p = Inr r"
    and b: "backslash \<notin> set (generated self (calls w))"
  from scrub_rules_literal [OF c replacement_generated [OF syn] b, of line rest s]
    spans_disjoint [of 0 s eng r False]
  show ?thesis by simp
qed

theorem synthetic_per_rule_witness:
  "synthetic (scrubber [''a'', ''b''] (Some ''fake_email'')) \<and>
   re_compile pyre ''a'' = Inr (Sym [(CHR ''a'', CHR ''a'')] False, 0) \<and>
   generated (scrubber [''a'', ''b''] (Some ''fake_email'')) (calls start) = ''x'' \<and>
   backslash \<notin> set ''x'' \<and>
   scrub_rules pyre (scrubber [''a'', ''b''] (Some ''fake_email'')) ''a b a'' [''a'', ''b'']
     ''a b a'' start = (Inr ''x xx x'', start\<lparr>calls := 2\<rparr>)"
  using synthetic_per_rule [of "scrubber [''a'', ''b''] (Some ''fake_email'')" pyre "''a''"
      "(Sym [(CHR ''a'', CHR ''a'')] False, 0)" start "''a b a''" "[''b'']" "''a b a''"]
    two_rules_email
  by (simp add: synthetic_email generated_email pyre_compile a_compile two_sites_b
      start_def backslash_def)

text \<open>
  C2, as stated: the rule \<open>a\<close> has two matches in the line \<open>a a\<close>. The generator
  is called once, not once for each match, and both matches receive the value of that
  call, although the next value of the generator is a different one.
\<close>

theorem one_value_for_two_matches:
  "spans pyre (projr (compile ''a'')) ''a a'' 0 False = [(0, 1), (2, 3)] \<and>
   fst (scrub_line pyre (scrubber [''a''] (Some ''fake_email'')) ''a a'' start) = Inr ''x x'' \<and>
   calls (snd (scrub_line pyre (scrubber [''a''] (Some ''fake_email'')) ''a a'' start)) = 1 \<and>
   counting_faker Email 0 \<noteq> counting_faker Email 1"
  by code_simp




text \<open>
  C4. The property: every match is replaced by the literal text as it is, with no
  interpretation. The code hands the text to \<open>re.sub\<close> as its replacement argument,
  which reads a backslash as the start of an escape: the two characters \<open>\n\<close> are
  written as one line feed, and \<open>\g<0>!\<close> is written as the matched text followed by
  an exclamation mark, a different string at each match.
\<close>

theorem literal_text_interpreted:
  "fst (scrub_line pyre (scrubber [''a''] (Some [backslash, CHR ''n''])) ''a'' start)
     = Inr [CHR 0x0A] \<and>
   fst (scrub_line pyre (scrubber [''a|b''] (Some (backslash # ''g<0>!''))) ''ab'' start)
     = Inr ''a!b!''"
  by code_simp



end
